theory Spec2Isabelle
  imports Main
begin

section \<open>JavaScript values used by the timer\<close>

text \<open>
  The timer variables of \<^verbatim>\<open>script.js\<close> are declared with \<^verbatim>\<open>let\<close> and hold
  \<^verbatim>\<open>undefined\<close> until they are assigned. Arithmetic on \<^verbatim>\<open>undefined\<close> gives
  \<^verbatim>\<open>NaN\<close>, and every comparison with \<^verbatim>\<open>NaN\<close> is false. \<^verbatim>\<open>Date.now()\<close> is an
  integer number of milliseconds; integers of that size are exact in a double, so
  defined numbers are modelled as \<open>int\<close>.
\<close>

datatype jsval = Undefined | NaN | Num int

fun js_sub :: "jsval \<Rightarrow> jsval \<Rightarrow> jsval" where
  "js_sub (Num a) (Num b) = Num (a - b)"
| "js_sub _ _ = NaN"

fun js_add :: "jsval \<Rightarrow> jsval \<Rightarrow> jsval" where
  "js_add (Num a) (Num b) = Num (a + b)"
| "js_add _ _ = NaN"

fun js_ge :: "jsval \<Rightarrow> jsval \<Rightarrow> bool" where
  "js_ge (Num a) (Num b) = (b \<le> a)"
| "js_ge _ _ = False"

text \<open>\<^verbatim>\<open>const MAX_RECORDING_TIME_MS = 60 * 60 * 1000;\<close>\<close>

definition MAX_RECORDING_TIME_MS :: int where
  "MAX_RECORDING_TIME_MS = 60 * 60 * 1000"

subsection \<open>Number formatting of the time display\<close>

definition digit_char :: "nat \<Rightarrow> char" where
  "digit_char d = ''0123456789'' ! d"

function show_nat :: "nat \<Rightarrow> string" where
  "show_nat n = (if n < 10 then [digit_char n] else show_nat (n div 10) @ [digit_char (n mod 10)])"
  by pat_completeness auto
termination
  by (relation "measure id") auto

declare show_nat.simps [simp del]

text \<open>\<^verbatim>\<open>Number.prototype.toString\<close> on an integer.\<close>

definition toString :: "int \<Rightarrow> string" where
  "toString i = (if i < 0 then CHR ''-'' # show_nat (nat (- i)) else show_nat (nat i))"

text \<open>\<^verbatim>\<open>s.padStart(2, '0')\<close>.\<close>

definition padStart2 :: "string \<Rightarrow> string" where
  "padStart2 s = replicate (2 - length s) CHR ''0'' @ s"

text \<open>The remainder operator \<^verbatim>\<open>%\<close> of JavaScript truncates towards zero.\<close>

definition js_rem :: "int \<Rightarrow> int \<Rightarrow> int" where
  "js_rem a b = (if a < 0 then - ((- a) mod b) else a mod b)"

text \<open>
  The last four lines of \<^verbatim>\<open>updateTimer\<close>: \<^verbatim>\<open>Math.floor\<close> of an exact quotient is
  \<open>div\<close> on \<open>int\<close>; a \<^verbatim>\<open>NaN\<close> prints as \<^verbatim>\<open>NaN\<close> in both places.
\<close>

fun formatElapsed :: "jsval \<Rightarrow> string" where
  "formatElapsed (Num totalElapsed) =
     (let totalSeconds = totalElapsed div 1000;
          minutes = padStart2 (toString (totalSeconds div 60));
          seconds = padStart2 (toString (js_rem totalSeconds 60))
      in minutes @ '':'' @ seconds)"
| "formatElapsed _ = ''NaN:NaN''"

section \<open>Capability negotiation: \<^verbatim>\<open>getSupportedMimeType\<close>\<close>

record encoding =
  mime :: string
  ext :: string

text \<open>The candidate list of the source, in its order.\<close>

definition types :: "encoding list" where
  "types =
    [\<lparr>mime = ''audio/mp4'', ext = ''m4a''\<rparr>,
     \<lparr>mime = ''audio/aac'', ext = ''aac''\<rparr>,
     \<lparr>mime = ''audio/webm;codecs=opus'', ext = ''webm''\<rparr>,
     \<lparr>mime = ''audio/webm'', ext = ''webm''\<rparr>]"

text \<open>
  The \<^verbatim>\<open>for (const type of types)\<close> loop; \<open>isTypeSupported\<close> stands for
  \<^verbatim>\<open>MediaRecorder.isTypeSupported\<close>, and \<open>None\<close> for \<^verbatim>\<open>null\<close>.
\<close>

fun firstSupported :: "(string \<Rightarrow> bool) \<Rightarrow> encoding list \<Rightarrow> encoding option" where
  "firstSupported isTypeSupported [] = None"
| "firstSupported isTypeSupported (type # rest) =
     (if isTypeSupported (mime type) then Some type else firstSupported isTypeSupported rest)"

definition getSupportedMimeType :: "(string \<Rightarrow> bool) \<Rightarrow> encoding option" where
  "getSupportedMimeType isTypeSupported = firstSupported isTypeSupported types"

section \<open>The browser objects the script holds\<close>

text \<open>
  The script consumes the browser's \<^verbatim>\<open>AudioContext\<close>, \<^verbatim>\<open>MediaRecorder\<close>,
  \<^verbatim>\<open>setInterval\<close> and \<^verbatim>\<open>requestAnimationFrame\<close>. Of an audio context only its
  \<^verbatim>\<open>state\<close> matters to the script; of the analyser its \<^verbatim>\<open>fftSize\<close>; a recorder
  is in one of the three states of the MediaStream Recording interface.
\<close>

datatype context_state = Running | Suspended

datatype source_node = MediaStreamSource

datatype recorder_state = Inactive | RecorderRecording | RecorderPaused

datatype js_error = TypeError | InvalidStateError

text \<open>
  Calling a method on an \<^verbatim>\<open>undefined\<close> recorder throws a \<^verbatim>\<open>TypeError\<close>; the
  recorder itself throws \<^verbatim>\<open>InvalidStateError\<close> when it is started while active or
  paused/resumed while inactive, and ignores a \<^verbatim>\<open>stop\<close> while inactive.
\<close>

fun recorder_start :: "recorder_state option \<Rightarrow> js_error + recorder_state" where
  "recorder_start None = Inl TypeError"
| "recorder_start (Some Inactive) = Inr RecorderRecording"
| "recorder_start (Some _) = Inl InvalidStateError"

fun recorder_pause :: "recorder_state option \<Rightarrow> js_error + recorder_state" where
  "recorder_pause None = Inl TypeError"
| "recorder_pause (Some Inactive) = Inl InvalidStateError"
| "recorder_pause (Some _) = Inr RecorderPaused"

fun recorder_resume :: "recorder_state option \<Rightarrow> js_error + recorder_state" where
  "recorder_resume None = Inl TypeError"
| "recorder_resume (Some Inactive) = Inl InvalidStateError"
| "recorder_resume (Some _) = Inr RecorderRecording"

fun recorder_stop :: "recorder_state option \<Rightarrow> js_error + recorder_state" where
  "recorder_stop None = Inl TypeError"
| "recorder_stop (Some _) = Inr Inactive"

text \<open>A data fragment delivered by the recorder, and the blob built from them.\<close>

type_synonym fragment = nat

record blob =
  parts :: "fragment list"
  blob_type :: "string option"

text \<open>
  What the canvas shows: nothing (after \<^verbatim>\<open>clearRect\<close> over the whole canvas), or
  the bar spectrum painted from one array of frequency magnitudes. The bar
  geometry and colours are floating-point functions of that array and of the
  canvas size and are not modelled further.
\<close>

datatype surface = Cleared | Spectrum "nat list"

section \<open>The variables of the script\<close>

text \<open>
  One field per \<^verbatim>\<open>let\<close> variable of the closure, per property of a DOM element
  that the script writes, and per browser-side table that the script changes
  through \<^verbatim>\<open>setInterval\<close>/\<^verbatim>\<open>clearInterval\<close> and
  \<^verbatim>\<open>requestAnimationFrame\<close>/\<^verbatim>\<open>cancelAnimationFrame\<close>. \<open>None\<close> is
  \<^verbatim>\<open>undefined\<close>. \<open>saveBtn_onclick\<close> holds the blob behind the object URL that the
  installed click handler has captured. \<open>downloads\<close> lists the files handed to the
  browser by the save handler. \<open>negotiations\<close> counts the calls of
  \<^verbatim>\<open>getSupportedMimeType\<close>; the script does not read it. \<open>pendingSetup\<close> and
  \<open>pendingResume\<close> count the runs of the record click handler that are suspended
  at \<^verbatim>\<open>await setupAudio()\<close> (inside it, at \<^verbatim>\<open>await getUserMedia\<close>) and at
  \<^verbatim>\<open>await audioContext.resume()\<close>.
\<close>

record app =
  audioContext :: "context_state option"
  analyser :: "nat option"
  microphone :: "source_node option"
  mediaRecorder :: "recorder_state option"
  chunks :: "fragment list"
  selectedMimeType :: "string option"
  selectedExtension :: "string option"
  startTime :: jsval
  timerInterval :: "nat option"
  elapsedPausedTime :: jsval
  pauseStartTime :: jsval
  isRecording :: bool
  isPaused :: bool
  animationId :: "nat option"
  recordBtn_recording :: bool
  recordBtn_disabled :: bool
  pauseBtn_disabled :: bool
  pauseBtn_paused :: bool
  iconPause_display :: string
  iconPlay_display :: string
  pauseLabel :: string
  stopBtn_disabled :: bool
  saveBtn_disabled :: bool
  resetBtn_disabled :: bool
  saveBtn_onclick :: "blob option"
  timeDisplay :: string
  statusMessage :: string
  canvas :: surface
  activeIntervals :: "nat set"
  nextTimerId :: nat
  pendingFrames :: "nat set"
  nextFrameId :: nat
  downloads :: "(blob \<times> string option) list"
  negotiations :: nat
  pendingSetup :: nat
  pendingResume :: nat

text \<open>
  Modelled from the spec: the page markup is not part of the sources. The initial
  affordances are "recording enabled, save/reset disabled" (and pause and stop
  disabled), the time display reads 00:00 and the status line is the ready message
  that \<^verbatim>\<open>resetApp\<close> restores. The closure variables start as the script
  declares them.
\<close>

definition init :: app where
  "init =
    \<lparr>audioContext = None, analyser = None, microphone = None, mediaRecorder = None,
     chunks = [], selectedMimeType = None, selectedExtension = None,
     startTime = Undefined, timerInterval = None, elapsedPausedTime = Num 0,
     pauseStartTime = Undefined, isRecording = False, isPaused = False,
     animationId = None,
     recordBtn_recording = False, recordBtn_disabled = False,
     pauseBtn_disabled = True, pauseBtn_paused = False,
     iconPause_display = [], iconPlay_display = [], pauseLabel = ''Pause'',
     stopBtn_disabled = True, saveBtn_disabled = True, resetBtn_disabled = True,
     saveBtn_onclick = None, timeDisplay = ''00:00'', statusMessage = ''Ready to record'',
     canvas = Cleared,
     activeIntervals = {}, nextTimerId = 1, pendingFrames = {}, nextFrameId = 1,
     downloads = [], negotiations = 0, pendingSetup = 0, pendingResume = 0\<rparr>"

text \<open>
  What the environment answers when a pending \<^verbatim>\<open>getUserMedia\<close> settles: whether
  it resolves, what \<^verbatim>\<open>MediaRecorder.isTypeSupported\<close> says, and the state in
  which a new audio context is created.
\<close>

record env =
  getUserMedia_granted :: bool
  isTypeSupported :: "string \<Rightarrow> bool"
  newContextState :: context_state

section \<open>The functions of the script\<close>

text \<open>
  Each function takes the variables and returns them updated, together with the
  exception it threw, if any: assignments made before a \<^verbatim>\<open>throw\<close> stay made.
  \<^verbatim>\<open>Date.now()\<close> is the argument \<open>now\<close>; the array that
  \<^verbatim>\<open>analyser.getByteFrequencyData\<close> would fill is the argument \<open>magnitudes\<close>.
  Calls of \<^verbatim>\<open>console.log\<close> and \<^verbatim>\<open>console.error\<close> are left out.
\<close>

text \<open>\<^verbatim>\<open>clearInterval\<close> and \<^verbatim>\<open>cancelAnimationFrame\<close> ignore \<^verbatim>\<open>undefined\<close>.\<close>

definition clearHandle :: "nat option \<Rightarrow> nat set \<Rightarrow> nat set" where
  "clearHandle h table = (case h of None \<Rightarrow> table | Some i \<Rightarrow> table - {i})"

text \<open>
  \<^verbatim>\<open>setupAudio\<close>. A rejected \<^verbatim>\<open>getUserMedia\<close> lands in the \<^verbatim>\<open>catch\<close> branch.
  The constructors of \<^verbatim>\<open>AudioContext\<close> and \<^verbatim>\<open>MediaRecorder\<close> are taken not to
  throw (the recorder is built with a type the environment has just reported as
  supported).
\<close>

definition setupAudio :: "env \<Rightarrow> app \<Rightarrow> bool \<times> app" where
  "setupAudio e s =
    (if \<not> getUserMedia_granted e then
       (False, s\<lparr>statusMessage := ''Error: Additional permissions needed or mic not found.''\<rparr>)
     else
       let s1 = s\<lparr>audioContext := Some (newContextState e),
                  analyser := Some 256,
                  microphone := Some MediaStreamSource\<rparr>;
           supportedType = getSupportedMimeType (isTypeSupported e);
           s2 = s1\<lparr>negotiations := Suc (negotiations s1)\<rparr>
       in case supportedType of
            None \<Rightarrow> (False, s2\<lparr>statusMessage := ''Error: No supported audio format found.''\<rparr>)
          | Some ty \<Rightarrow>
              (True, s2\<lparr>selectedMimeType := Some (mime ty),
                        selectedExtension := Some (ext ty),
                        mediaRecorder := Some Inactive\<rparr>))"

text \<open>
  \<^verbatim>\<open>drawVisualizer\<close>. The frame is requested before the analyser is read, so
  a missing analyser throws with the request already made. The array has
  \<^verbatim>\<open>frequencyBinCount\<close> entries, half the \<^verbatim>\<open>fftSize\<close>, and receives that
  many of the analyser's current magnitudes.
\<close>

definition drawVisualizer :: "nat list \<Rightarrow> app \<Rightarrow> js_error option \<times> app" where
  "drawVisualizer magnitudes s =
    (if \<not> isRecording s \<or> isPaused s then (None, s)
     else
       let s1 = s\<lparr>animationId := Some (nextFrameId s),
                  pendingFrames := insert (nextFrameId s) (pendingFrames s),
                  nextFrameId := Suc (nextFrameId s)\<rparr>
       in case analyser s1 of
            None \<Rightarrow> (Some TypeError, s1)
          | Some fftSize \<Rightarrow>
              let bufferLength = fftSize div 2;
                  dataArray = take bufferLength magnitudes
              in (None, s1\<lparr>canvas := Spectrum dataArray\<rparr>))"

text \<open>\<^verbatim>\<open>stopRecording\<close>, which is also the click handler of the stop button.\<close>

definition stopRecording :: "app \<Rightarrow> js_error option \<times> app" where
  "stopRecording s =
    (if \<not> isRecording s then (None, s)
     else case recorder_stop (mediaRecorder s) of
            Inl err \<Rightarrow> (Some err, s)
          | Inr r \<Rightarrow>
              (None, s\<lparr>mediaRecorder := Some r,
                       isRecording := False,
                       isPaused := False,
                       activeIntervals := clearHandle (timerInterval s) (activeIntervals s),
                       pendingFrames := clearHandle (animationId s) (pendingFrames s),
                       recordBtn_recording := False,
                       recordBtn_disabled := False,
                       pauseBtn_disabled := True,
                       pauseBtn_paused := False,
                       iconPause_display := ''block'',
                       iconPlay_display := ''none'',
                       pauseLabel := ''Pause'',
                       stopBtn_disabled := True,
                       canvas := Cleared\<rparr>))"

text \<open>\<^verbatim>\<open>updateTimer\<close>, the callback of the one-second interval.\<close>

definition updateTimer :: "int \<Rightarrow> app \<Rightarrow> js_error option \<times> app" where
  "updateTimer now s =
    (if isPaused s then (None, s)
     else
       let totalElapsed = js_sub (js_sub (Num now) (startTime s)) (elapsedPausedTime s)
       in if js_ge totalElapsed (Num MAX_RECORDING_TIME_MS) then
            (case stopRecording s of
               (Some err, s1) \<Rightarrow> (Some err, s1)
             | (None, s1) \<Rightarrow>
                 (None, s1\<lparr>statusMessage := ''Recording auto-stopped (60m limit reached).''\<rparr>))
          else (None, s\<lparr>timeDisplay := formatElapsed totalElapsed\<rparr>))"

text \<open>\<^verbatim>\<open>resetApp\<close>, the click handler of the reset button.\<close>

definition resetApp :: "app \<Rightarrow> js_error option \<times> app" where
  "resetApp s =
    (let s1 = s\<lparr>chunks := [],
                elapsedPausedTime := Num 0,
                timeDisplay := ''00:00'',
                statusMessage := ''Ready to record'',
                saveBtn_disabled := True,
                resetBtn_disabled := True\<rparr>
     in case (if isRecording s1 then stopRecording s1 else (None, s1)) of
          (Some err, s2) \<Rightarrow> (Some err, s2)
        | (None, s2) \<Rightarrow> (None, s2\<lparr>canvas := Cleared\<rparr>))"

text \<open>
  The click handler of the record button is an \<^verbatim>\<open>async\<close> function: it runs up to
  its first \<^verbatim>\<open>await\<close>, and what follows the \<^verbatim>\<open>await\<close> runs later, when the awaited
  promise settles, with other events handled in between. The handler does not
  test \<^verbatim>\<open>isRecording\<close> again after an \<^verbatim>\<open>await\<close>.
\<close>

text \<open>From \<^verbatim>\<open>mediaRecorder.start()\<close> to the end of the handler.\<close>

definition startRecording :: "int \<Rightarrow> nat list \<Rightarrow> app \<Rightarrow> js_error option \<times> app" where
  "startRecording now magnitudes s =
    (case recorder_start (mediaRecorder s) of
       Inl err \<Rightarrow> (Some err, s)
     | Inr r \<Rightarrow>
         drawVisualizer magnitudes
           (s\<lparr>mediaRecorder := Some r,
              isRecording := True,
              isPaused := False,
              startTime := Num now,
              elapsedPausedTime := Num 0,
              timerInterval := Some (nextTimerId s),
              activeIntervals := insert (nextTimerId s) (activeIntervals s),
              nextTimerId := Suc (nextTimerId s),
              recordBtn_recording := True,
              recordBtn_disabled := True,
              pauseBtn_disabled := False,
              stopBtn_disabled := False,
              saveBtn_disabled := True,
              resetBtn_disabled := True,
              statusMessage := ''Recording in progress...''\<rparr>))"

text \<open>
  The handler up to its first \<^verbatim>\<open>await\<close>. Without an audio context it calls
  \<^verbatim>\<open>setupAudio\<close>, which suspends at \<^verbatim>\<open>getUserMedia\<close>; with a suspended context
  it suspends at \<^verbatim>\<open>audioContext.resume()\<close>; otherwise nothing is awaited and it
  runs to its end.
\<close>

definition recordClick :: "int \<Rightarrow> nat list \<Rightarrow> app \<Rightarrow> js_error option \<times> app" where
  "recordClick now magnitudes s =
    (if isRecording s then (None, s)
     else case audioContext s of
            None \<Rightarrow> (None, s\<lparr>pendingSetup := Suc (pendingSetup s)\<rparr>)
          | Some Suspended \<Rightarrow> (None, s\<lparr>pendingResume := Suc (pendingResume s)\<rparr>)
          | Some Running \<Rightarrow> startRecording now magnitudes s)"

text \<open>
  The handler from the settling of \<^verbatim>\<open>getUserMedia\<close>: the rest of \<^verbatim>\<open>setupAudio\<close>,
  the test of its result, and the start of the recording.
\<close>

definition afterSetup :: "int \<Rightarrow> env \<Rightarrow> nat list \<Rightarrow> app \<Rightarrow> js_error option \<times> app" where
  "afterSetup now e magnitudes s =
    (let (success, s1) = setupAudio e s
     in if \<not> success then (None, s1) else startRecording now magnitudes s1)"

text \<open>The handler from the settling of \<^verbatim>\<open>audioContext.resume()\<close>, which leaves the context running.\<close>

definition afterResume :: "int \<Rightarrow> nat list \<Rightarrow> app \<Rightarrow> js_error option \<times> app" where
  "afterResume now magnitudes s =
    startRecording now magnitudes
      (s\<lparr>audioContext := map_option (\<lambda>c. Running) (audioContext s)\<rparr>)"

text \<open>The click handler of the pause button: resume when paused, pause otherwise.\<close>

definition pauseClick :: "int \<Rightarrow> nat list \<Rightarrow> app \<Rightarrow> js_error option \<times> app" where
  "pauseClick now magnitudes s =
    (if \<not> isRecording s then (None, s)
     else if isPaused s then
       (case recorder_resume (mediaRecorder s) of
          Inl err \<Rightarrow> (Some err, s)
        | Inr r \<Rightarrow>
            let pauseDuration = js_sub (Num now) (pauseStartTime s)
            in drawVisualizer magnitudes
                 (s\<lparr>mediaRecorder := Some r,
                    isPaused := False,
                    elapsedPausedTime := js_add (elapsedPausedTime s) pauseDuration,
                    pauseBtn_paused := False,
                    iconPause_display := ''block'',
                    iconPlay_display := ''none'',
                    pauseLabel := ''Pause'',
                    statusMessage := ''Recording resumed...''\<rparr>))
     else
       (case recorder_pause (mediaRecorder s) of
          Inl err \<Rightarrow> (Some err, s)
        | Inr r \<Rightarrow>
            (None, s\<lparr>mediaRecorder := Some r,
                     isPaused := True,
                     pauseStartTime := Num now,
                     pauseBtn_paused := True,
                     iconPause_display := ''none'',
                     iconPlay_display := ''block'',
                     pauseLabel := ''Resume'',
                     statusMessage := ''Recording paused.'',
                     pendingFrames := clearHandle (animationId s) (pendingFrames s)\<rparr>)))"

text \<open>\<^verbatim>\<open>mediaRecorder.ondataavailable\<close> and \<^verbatim>\<open>mediaRecorder.onstop\<close>.\<close>

definition ondataavailable :: "fragment \<Rightarrow> app \<Rightarrow> app" where
  "ondataavailable d s = s\<lparr>chunks := chunks s @ [d]\<rparr>"

definition onstop :: "app \<Rightarrow> app" where
  "onstop s =
    s\<lparr>chunks := [],
      saveBtn_disabled := False,
      resetBtn_disabled := False,
      saveBtn_onclick := Some \<lparr>parts = chunks s, blob_type = selectedMimeType s\<rparr>,
      statusMessage := ''Recording finished. Ready to save or reset.''\<rparr>"

text \<open>
  \<^verbatim>\<open>saveBtn.onclick\<close>: absent until the first \<^verbatim>\<open>onstop\<close> installs it. The
  download is recorded with the extension read at the time of the click; the
  time stamp in the file name is left out.
\<close>

definition saveClick :: "app \<Rightarrow> app" where
  "saveClick s =
    (case saveBtn_onclick s of
       None \<Rightarrow> s
     | Some b \<Rightarrow>
         s\<lparr>downloads := downloads s @ [(b, selectedExtension s)],
           statusMessage := ''Recording saved!''\<rparr>)"


section \<open>Events and runs\<close>

text \<open>
  The page is driven by events on one cooperative event loop: clicks on the five
  buttons, the settling of a promise that a record click awaits, the interval
  timer, the animation frame, and the two recorder events. A click reaches its
  handler only while the button is not disabled. A suspended record click
  resumes only if one is pending. A timer callback runs only for an interval that
  is still active, a frame callback only for a request that is still pending
  (running it consumes the request), and the recorder events only once a recorder
  exists; the recorder delivers them in tasks of their own, some time after
  \<^verbatim>\<open>stop()\<close>. An exception that escapes a handler is reported and the page goes
  on.
\<close>

datatype event =
    RecordClick "nat list"
  | GetUserMediaSettled env "nat list"
  | ContextResumed "nat list"
  | PauseClick "nat list"
  | StopClick
  | SaveClick
  | ResetClick
  | TimerTick nat
  | AnimationFrame nat "nat list"
  | DataAvailable fragment
  | RecorderStopped

fun dispatch :: "int \<Rightarrow> event \<Rightarrow> app \<Rightarrow> js_error option \<times> app" where
  "dispatch now (RecordClick magnitudes) s =
     (if recordBtn_disabled s then (None, s) else recordClick now magnitudes s)"
| "dispatch now (GetUserMediaSettled e magnitudes) s =
     (if pendingSetup s = 0 then (None, s)
      else afterSetup now e magnitudes (s\<lparr>pendingSetup := pendingSetup s - 1\<rparr>))"
| "dispatch now (ContextResumed magnitudes) s =
     (if pendingResume s = 0 then (None, s)
      else afterResume now magnitudes (s\<lparr>pendingResume := pendingResume s - 1\<rparr>))"
| "dispatch now (PauseClick magnitudes) s =
     (if pauseBtn_disabled s then (None, s) else pauseClick now magnitudes s)"
| "dispatch now StopClick s =
     (if stopBtn_disabled s then (None, s) else stopRecording s)"
| "dispatch now SaveClick s =
     (if saveBtn_disabled s then (None, s) else (None, saveClick s))"
| "dispatch now ResetClick s =
     (if resetBtn_disabled s then (None, s) else resetApp s)"
| "dispatch now (TimerTick i) s =
     (if i \<in> activeIntervals s then updateTimer now s else (None, s))"
| "dispatch now (AnimationFrame i magnitudes) s =
     (if i \<in> pendingFrames s
      then drawVisualizer magnitudes (s\<lparr>pendingFrames := pendingFrames s - {i}\<rparr>)
      else (None, s))"
| "dispatch now (DataAvailable d) s =
     (if mediaRecorder s = None then (None, s) else (None, ondataavailable d s))"
| "dispatch now RecorderStopped s =
     (if mediaRecorder s = None then (None, s) else (None, onstop s))"

definition step :: "int \<times> event \<Rightarrow> app \<Rightarrow> app" where
  "step te s = snd (dispatch (fst te) (snd te) s)"

fun run :: "app \<Rightarrow> (int \<times> event) list \<Rightarrow> app" where
  "run s [] = s"
| "run s (te # rest) = run (step te s) rest"

text \<open>
  The time stamp of an event is the reading of \<^verbatim>\<open>Date.now()\<close> while it is handled.
  \<open>timed t evs\<close>: the readings of a run never go back, starting from \<open>t\<close>.
\<close>

fun timed :: "int \<Rightarrow> (int \<times> event) list \<Rightarrow> bool" where
  "timed t [] = True"
| "timed t (te # rest) = (t \<le> fst te \<and> timed (fst te) rest)"

fun lastTime :: "int \<Rightarrow> (int \<times> event) list \<Rightarrow> int" where
  "lastTime t [] = t"
| "lastTime t (te # rest) = lastTime (fst te) rest"

section \<open>The session state of the specification, read off the variables\<close>

text \<open>
  The script keeps two booleans instead of one state. Recording and Paused are
  \<open>isRecording\<close> without and with \<open>isPaused\<close>. With \<open>isRecording\<close> false the
  session is Stopped when the save and reset affordances are enabled (the
  recorder's stop event has delivered the recording) and Idle otherwise.
\<close>

datatype session_state = Idle | Recording | Paused | Stopped

definition sessionState :: "app \<Rightarrow> session_state" where
  "sessionState s =
    (if isRecording s then (if isPaused s then Paused else Recording)
     else if saveBtn_disabled s \<or> resetBtn_disabled s then Idle
     else Stopped)"

text \<open>The reading that \<^verbatim>\<open>updateTimer\<close> computes at the instant \<open>now\<close>.\<close>

definition netElapsed :: "int \<Rightarrow> app \<Rightarrow> jsval" where
  "netElapsed now s = js_sub (js_sub (Num now) (startTime s)) (elapsedPausedTime s)"

section \<open>Invariants of the reachable states\<close>

fun isNum :: "jsval \<Rightarrow> bool" where
  "isNum (Num a) = True"
| "isNum _ = False"

text \<open>
  What holds between the handlers, whatever the order of the events: the two
  booleans agree with the recorder the script holds, the interval set last is
  active while recording, the affordances of record, pause and stop follow
  \<open>isRecording\<close>, save and reset are enabled together and only with a recording
  to hand over, and the timer variables are numbers when they are read.
\<close>

definition consistent :: "app \<Rightarrow> bool" where
  "consistent s \<longleftrightarrow>
     (if isRecording s
      then mediaRecorder s = Some (if isPaused s then RecorderPaused else RecorderRecording)
         \<and> timerInterval s \<noteq> None
         \<and> set_option (timerInterval s) \<subseteq> activeIntervals s
         \<and> isNum (startTime s)
         \<and> (if isPaused s then isNum (pauseStartTime s) else True)
         \<and> statusMessage s \<noteq> ''Recording auto-stopped (60m limit reached).''
      else \<not> isPaused s
         \<and> (mediaRecorder s = None \<or> mediaRecorder s = Some Inactive))
     \<and> isNum (elapsedPausedTime s)
     \<and> recordBtn_disabled s = isRecording s
     \<and> pauseBtn_disabled s = (\<not> isRecording s)
     \<and> stopBtn_disabled s = (\<not> isRecording s)
     \<and> saveBtn_disabled s = resetBtn_disabled s
     \<and> (mediaRecorder s = None \<or>
          audioContext s \<noteq> None \<and> analyser s \<noteq> None \<and> isNum (startTime s)
          \<and> selectedMimeType s \<noteq> None \<and> selectedExtension s \<noteq> None)
     \<and> (resetBtn_disabled s \<or> mediaRecorder s \<noteq> None \<and> saveBtn_onclick s \<noteq> None)"

text \<open>
  The timer variables at the instant \<open>t\<close> of the last event, when the readings of
  the clock never went back: the paused total is not negative, and the start
  instant plus the paused total is not after the running pause began, or not
  after \<open>t\<close> when no pause is running.
\<close>

fun numOf :: "jsval \<Rightarrow> int" where
  "numOf (Num a) = a"
| "numOf _ = 0"

definition timeInv :: "int \<Rightarrow> app \<Rightarrow> bool" where
  "timeInv t s \<longleftrightarrow>
     (if isNum (startTime s)
      then isNum (elapsedPausedTime s)
         \<and> 0 \<le> numOf (elapsedPausedTime s)
         \<and> (if isPaused s
            then isNum (pauseStartTime s)
               \<and> numOf (startTime s) + numOf (elapsedPausedTime s) \<le> numOf (pauseStartTime s)
               \<and> numOf (pauseStartTime s) \<le> t
            else numOf (startTime s) + numOf (elapsedPausedTime s) \<le> t)
      else \<not> isRecording s)"

text \<open>
  The time recorded so far at the instant \<open>t\<close>: the timer's reading, with a
  running pause taken off.
\<close>

definition recordedTime :: "int \<Rightarrow> app \<Rightarrow> jsval" where
  "recordedTime t s =
     (if isPaused s
      then js_sub (js_sub (pauseStartTime s) (startTime s)) (elapsedPausedTime s)
      else js_sub (js_sub (Num t) (startTime s)) (elapsedPausedTime s))"

text \<open>
  A stretch of one session: the session is in Recording or Paused from the first
  state of the run to the last, and no suspended record click gets past
  \<^verbatim>\<open>getUserMedia\<close> during it.
\<close>

fun completesSetup :: "event \<Rightarrow> bool" where
  "completesSetup (GetUserMediaSettled e magnitudes) = True"
| "completesSetup _ = False"

fun sameSession :: "app \<Rightarrow> (int \<times> event) list \<Rightarrow> bool" where
  "sameSession s [] = isRecording s"
| "sameSession s (te # rest) =
     (isRecording s \<and> \<not> completesSetup (snd te) \<and> sameSession (step te s) rest)"


section \<open>Environments and sessions used as examples\<close>

definition envOk :: env where
  "envOk = \<lparr>getUserMedia_granted = True,
            isTypeSupported = (\<lambda>m. m = ''audio/webm''),
            newContextState = Running\<rparr>"

definition envDenied :: env where
  "envDenied = \<lparr>getUserMedia_granted = False,
                isTypeSupported = (\<lambda>m. m = ''audio/webm''),
                newContextState = Running\<rparr>"

definition envNoEncoding :: env where
  "envNoEncoding = \<lparr>getUserMedia_granted = True,
                    isTypeSupported = (\<lambda>m. False),
                    newContextState = Running\<rparr>"

text \<open>A first record click at 0, granted at once.\<close>

definition firstRecord :: "(int \<times> event) list" where
  "firstRecord = [(0, RecordClick []), (0, GetUserMediaSettled envOk [3, 2, 1])]"

definition recordingSession :: app where
  "recordingSession = run init firstRecord"

definition pausedSession :: app where
  "pausedSession = run init (firstRecord @ [(1000, PauseClick [])])"

definition stoppedSession :: app where
  "stoppedSession =
     run init (firstRecord @
       [(5000, StopClick), (5001, DataAvailable 7), (5001, RecorderStopped)])"

definition afterNoEncoding :: app where
  "afterNoEncoding = run init [(0, RecordClick []), (0, GetUserMediaSettled envNoEncoding [])]"

definition afterDenied :: app where
  "afterDenied = run init [(0, RecordClick []), (0, GetUserMediaSettled envDenied [])]"

definition resumedSession :: app where
  "resumedSession = run init (firstRecord @ [(5000, PauseClick []), (5000, PauseClick [4])])"

text \<open>
  Two record clicks while the permission prompt is open; both requests are
  granted, at 2000 and 5000.
\<close>

definition doubleClick :: "(int \<times> event) list" where
  "doubleClick =
     [(0, RecordClick []), (10, RecordClick []),
      (2000, GetUserMediaSettled envOk [1]), (5000, GetUserMediaSettled envOk [2])]"

text \<open>
  A stop request followed at once by a record request: the stop event of the
  first recording is delivered after the second recording has started.
\<close>

definition lateStopEvent :: app where
  "lateStopEvent =
     run init (firstRecord @
       [(5000, StopClick), (5000, RecordClick [4]),
        (5001, DataAvailable 7), (5001, RecorderStopped)])"

text \<open>A recording started when the clock reads 10000.\<close>

definition startedAtTen :: app where
  "startedAtTen = run init [(10000, RecordClick []), (10000, GetUserMediaSettled envOk [])]"

text \<open>
  After the two clicks of \<open>doubleClick\<close>: the session is stopped by a tick of its
  own interval an hour after its start, and the recorder's stop event follows.
\<close>

definition autoStoppedTwice :: app where
  "autoStoppedTwice =
     run init (doubleClick @
       [(3605000, TimerTick 2), (3605001, DataAvailable 7), (3605001, RecorderStopped)])"

definition twoPauses :: "(int \<times> event) list" where
  "twoPauses = firstRecord @ [(5000, PauseClick []), (10000, PauseClick [4])]"

definition thirdPause :: "(int \<times> event) list" where
  "thirdPause = [(13000, PauseClick []), (13500, TimerTick 1), (14000, PauseClick [5])]"

text \<open>
  The affordance and display configuration that a reset is to restore: chunk
  buffer, paused total, time display, status line, the disabled flags of the record,
  pause, stop, save and reset buttons, and the canvas.
\<close>

definition configuration ::
  "app \<Rightarrow> fragment list \<times> jsval \<times> string \<times> string \<times> bool \<times> bool \<times> bool \<times> bool \<times> bool \<times> surface" where
  "configuration s =
     (chunks s, elapsedPausedTime s, timeDisplay s, statusMessage s,
      recordBtn_disabled s, pauseBtn_disabled s, stopBtn_disabled s,
      saveBtn_disabled s, resetBtn_disabled s, canvas s)"

section \<open>Preservation of the invariants\<close>

lemmas handler_defs =
  step_def recordClick_def afterSetup_def afterResume_def startRecording_def
  setupAudio_def getSupportedMimeType_def types_def
  drawVisualizer_def pauseClick_def stopRecording_def updateTimer_def resetApp_def
  ondataavailable_def onstop_def saveClick_def clearHandle_def

lemmas example_defs =
  envOk_def envDenied_def envNoEncoding_def init_def firstRecord_def
  recordingSession_def pausedSession_def stoppedSession_def
  afterNoEncoding_def afterDenied_def resumedSession_def
  doubleClick_def lateStopEvent_def twoPauses_def thirdPause_def
  startedAtTen_def autoStoppedTwice_def

lemma isNum_iff: "isNum v \<longleftrightarrow> (\<exists>a. v = Num a)"
  by (cases v) auto

lemma consistent_init: "consistent init"
  by (simp add: consistent_def init_def)

lemma consistent_pending:
  "consistent (s\<lparr>pendingSetup := a\<rparr>) = consistent s"
  "consistent (s\<lparr>pendingResume := b\<rparr>) = consistent s"
  "consistent (s\<lparr>pendingFrames := c\<rparr>) = consistent s"
  by (simp_all add: consistent_def)

lemma consistent_drawVisualizer:
  "consistent s \<Longrightarrow> consistent (snd (drawVisualizer m s))"
  by (auto simp: consistent_def drawVisualizer_def Let_def split: option.splits if_splits)

lemma consistent_stopRecording:
  "consistent s \<Longrightarrow> consistent (snd (stopRecording s))"
  by (auto simp: consistent_def stopRecording_def clearHandle_def split: option.splits if_splits)

lemma consistent_updateTimer:
  "consistent s \<Longrightarrow> consistent (snd (updateTimer now s))"
  by (auto simp: consistent_def updateTimer_def stopRecording_def clearHandle_def Let_def
      split: option.splits if_splits)

lemma consistent_resetApp:
  "consistent s \<Longrightarrow> consistent (snd (resetApp s))"
  by (auto simp: consistent_def resetApp_def stopRecording_def clearHandle_def Let_def
      split: option.splits if_splits)

lemma consistent_pauseClick:
  "consistent s \<Longrightarrow> consistent (snd (pauseClick now m s))"
  by (auto simp: consistent_def pauseClick_def drawVisualizer_def isNum_iff Let_def
      split: option.splits if_splits)

lemma consistent_startRecording:
  assumes "consistent s"
  shows "consistent (snd (startRecording now m s))"
proof (cases "mediaRecorder s")
  case None
  then show ?thesis using assms by (simp add: startRecording_def)
next
  case (Some r)
  with assms show ?thesis
    by (cases r; cases "isRecording s")
      (auto simp: consistent_def startRecording_def drawVisualizer_def Let_def
        split: option.splits)
qed

lemma consistent_recordClick:
  assumes "consistent s"
  shows "consistent (snd (recordClick now m s))"
proof (cases "isRecording s")
  case True
  then show ?thesis using assms by (simp add: recordClick_def)
next
  case False
  show ?thesis
  proof (cases "audioContext s")
    case None
    with False assms show ?thesis
      by (simp add: recordClick_def consistent_pending)
  next
    case (Some c)
    with False assms show ?thesis
      by (cases c) (simp_all add: recordClick_def consistent_pending consistent_startRecording)
  qed
qed

lemma consistent_afterSetup:
  assumes "consistent s"
  shows "consistent (snd (afterSetup now e m s))"
proof (cases "getUserMedia_granted e")
  case False
  then show ?thesis using assms
    by (auto simp: consistent_def afterSetup_def setupAudio_def)
next
  case True
  show ?thesis
  proof (cases "getSupportedMimeType (isTypeSupported e)")
    case None
    then show ?thesis using assms True
      by (auto simp: consistent_def afterSetup_def setupAudio_def)
  next
    case (Some ty)
    then show ?thesis using assms True
      by (auto simp: consistent_def afterSetup_def setupAudio_def startRecording_def
          drawVisualizer_def)
  qed
qed

lemma consistent_afterResume:
  assumes "consistent s"
  shows "consistent (snd (afterResume now m s))"
proof -
  have "consistent (s\<lparr>audioContext := map_option (\<lambda>c. Running) (audioContext s)\<rparr>)"
    using assms by (auto simp: consistent_def)
  then show ?thesis
    unfolding afterResume_def by (rule consistent_startRecording)
qed

lemma consistent_step: "consistent s \<Longrightarrow> consistent (step te s)"
proof (cases te)
  case (Pair now ev)
  assume c: "consistent s"
  show ?thesis
  proof (cases ev)
    case (RecordClick m)
    with Pair c show ?thesis by (simp add: step_def consistent_recordClick)
  next
    case (GetUserMediaSettled e m)
    with Pair c show ?thesis
      by (simp add: step_def consistent_afterSetup consistent_pending)
  next
    case (ContextResumed m)
    with Pair c show ?thesis
      by (simp add: step_def consistent_afterResume consistent_pending)
  next
    case (PauseClick m)
    with Pair c show ?thesis by (simp add: step_def consistent_pauseClick)
  next
    case StopClick
    with Pair c show ?thesis by (simp add: step_def consistent_stopRecording)
  next
    case SaveClick
    with Pair c show ?thesis
      by (auto simp: step_def consistent_def saveClick_def split: option.splits)
  next
    case ResetClick
    with Pair c show ?thesis by (simp add: step_def consistent_resetApp)
  next
    case (TimerTick i)
    with Pair c show ?thesis by (simp add: step_def consistent_updateTimer)
  next
    case (AnimationFrame i m)
    with Pair c show ?thesis
      by (simp add: step_def consistent_drawVisualizer consistent_pending)
  next
    case (DataAvailable d)
    with Pair c show ?thesis
      by (auto simp: step_def consistent_def ondataavailable_def)
  next
    case RecorderStopped
    with Pair c show ?thesis
      by (auto simp: step_def consistent_def onstop_def)
  qed
qed

lemma run_append: "run s (xs @ ys) = run (run s xs) ys"
  by (induction xs arbitrary: s) auto

lemma consistent_run: "consistent s \<Longrightarrow> consistent (run s evs)"
  by (induction evs arbitrary: s) (auto simp: consistent_step)

lemma reachable_consistent: "consistent (run init evs)"
  by (rule consistent_run[OF consistent_init])

section \<open>Capability negotiation\<close>

lemma firstSupported_None:
  "firstSupported supported xs = None \<longleftrightarrow> (\<forall>t \<in> set xs. \<not> supported (mime t))"
  by (induction xs) auto

lemma firstSupported_Some:
  "firstSupported supported xs = Some ty \<Longrightarrow>
     \<exists>i < length xs. xs ! i = ty \<and> supported (mime ty)
        \<and> (\<forall>j < i. \<not> supported (mime (xs ! j)))"
proof (induction xs)
  case Nil
  then show ?case by simp
next
  case (Cons x xs)
  show ?case
  proof (cases "supported (mime x)")
    case True
    with Cons.prems have "x = ty" by simp
    with True show ?thesis by (intro exI[of _ 0]) simp
  next
    case False
    with Cons.prems have "firstSupported supported xs = Some ty" by simp
    from Cons.IH[OF this] obtain i where i: "i < length xs" "xs ! i = ty" "supported (mime ty)"
      "\<forall>j < i. \<not> supported (mime (xs ! j))" by blast
    have "\<forall>j < Suc i. \<not> supported (mime ((x # xs) ! j))"
      using False i(4) by (auto simp: less_Suc_eq_0_disj)
    with i show ?thesis by (intro exI[of _ "Suc i"]) simp
  qed
qed

lemma firstSupported_cong:
  "(\<forall>t \<in> set xs. supported' (mime t) = supported (mime t)) \<Longrightarrow>
     firstSupported supported' xs = firstSupported supported xs"
  by (induction xs) auto

text \<open>
  Claim C7. \<^verbatim>\<open>getSupportedMimeType\<close> goes through the candidates in their order
  and returns the first one the environment reports as supported, as the
  candidate itself (MIME type with its file suffix); it returns \<^verbatim>\<open>null\<close> exactly
  when no candidate is supported; and its result depends on nothing but the
  environment's answers for the candidates.
\<close>

theorem getSupportedMimeType_first_supported:
  "(getSupportedMimeType supported = None \<longleftrightarrow> (\<forall>t \<in> set types. \<not> supported (mime t)))
   \<and> (\<forall>ty. getSupportedMimeType supported = Some ty \<longrightarrow>
        (\<exists>i < length types. types ! i = ty \<and> supported (mime ty)
           \<and> (\<forall>j < i. \<not> supported (mime (types ! j)))))
   \<and> ((\<forall>t \<in> set types. supported' (mime t) = supported (mime t)) \<longrightarrow>
        getSupportedMimeType supported' = getSupportedMimeType supported)"
  unfolding getSupportedMimeType_def
  using firstSupported_None[of supported types] firstSupported_Some[of supported types]
    firstSupported_cong[of types supported' supported]
  by blast

theorem getSupportedMimeType_first_supported_witness:
  "getSupportedMimeType (\<lambda>m. m = ''audio/webm'' \<or> m = ''audio/aac'')
     = Some \<lparr>mime = ''audio/aac'', ext = ''aac''\<rparr>
   \<and> types ! 1 = \<lparr>mime = ''audio/aac'', ext = ''aac''\<rparr>
   \<and> getSupportedMimeType (\<lambda>m. m = ''audio/webm'' \<or> m = ''audio/aac'' \<or> m = ''audio/ogg'')
     = getSupportedMimeType (\<lambda>m. m = ''audio/webm'' \<or> m = ''audio/aac'')
   \<and> getSupportedMimeType (\<lambda>m. False) = None"
  using getSupportedMimeType_first_supported[of "\<lambda>m. m = ''audio/webm'' \<or> m = ''audio/aac''"
      "\<lambda>m. m = ''audio/webm'' \<or> m = ''audio/aac'' \<or> m = ''audio/ogg''"]
    getSupportedMimeType_first_supported[of "\<lambda>m. False"]
  by (simp add: getSupportedMimeType_def types_def)

section \<open>The visualizer frame\<close>

text \<open>
  Claim C6. An invocation of \<^verbatim>\<open>drawVisualizer\<close> in any state other than unpaused
  Recording returns at once: it does not throw, paints nothing, requests no
  further frame and leaves every variable as it was. The test is the first
  statement of the function, so it is made on every entry.
\<close>

theorem drawVisualizer_exits_outside_recording:
  "sessionState s \<noteq> Recording \<Longrightarrow> drawVisualizer magnitudes s = (None, s)"
  by (auto simp: sessionState_def drawVisualizer_def split: if_splits)

theorem drawVisualizer_exits_outside_recording_witness:
  "sessionState pausedSession = Paused
   \<and> drawVisualizer [9, 9, 9] pausedSession = (None, pausedSession)
   \<and> sessionState stoppedSession = Stopped
   \<and> drawVisualizer [9, 9, 9] stoppedSession = (None, stoppedSession)"
proof -
  have p: "sessionState pausedSession = Paused"
    by (simp add: sessionState_def example_defs handler_defs)
  have s: "sessionState stoppedSession = Stopped"
    by (simp add: sessionState_def example_defs handler_defs)
  show ?thesis
    using p s drawVisualizer_exits_outside_recording[of pausedSession "[9, 9, 9]"]
      drawVisualizer_exits_outside_recording[of stoppedSession "[9, 9, 9]"]
    by simp
qed

section \<open>The clock tick while paused\<close>



section \<open>Failure of a record request\<close>

text \<open>
  Claim C1. A record request whose open fails is terminal for that attempt and
  leaves nothing behind, so that a later request is a first attempt again. This
  holds when the microphone is refused: only the status line changes, and a
  later request under a willing environment records. It does not hold when no
  encoding is supported: the audio context, the analyser and the microphone
  source stay assigned while the recorder stays \<^verbatim>\<open>undefined\<close>, and every later
  request skips \<^verbatim>\<open>setupAudio\<close> and throws a \<^verbatim>\<open>TypeError\<close> at
  \<^verbatim>\<open>mediaRecorder.start()\<close>, whatever the environment would answer by then.
\<close>

theorem failed_open_leaves_partial_state:
  "afterDenied = init\<lparr>statusMessage := ''Error: Additional permissions needed or mic not found.''\<rparr>
   \<and> fst (dispatch 1000 (RecordClick []) afterDenied) = None
   \<and> fst (dispatch 1000 (GetUserMediaSettled envOk [])
        (snd (dispatch 1000 (RecordClick []) afterDenied))) = None
   \<and> sessionState
        (run afterDenied [(1000, RecordClick []), (1000, GetUserMediaSettled envOk [])])
       = Recording
   \<and> afterNoEncoding =
       init\<lparr>audioContext := Some Running, analyser := Some 256,
            microphone := Some MediaStreamSource, negotiations := 1,
            statusMessage := ''Error: No supported audio format found.''\<rparr>
   \<and> sessionState afterNoEncoding = Idle
   \<and> dispatch 1000 (RecordClick []) afterNoEncoding = (Some TypeError, afterNoEncoding)"
  by (simp add: sessionState_def example_defs handler_defs)

theorem failed_open_leaves_partial_state_witness:
  "audioContext afterNoEncoding = Some Running
   \<and> mediaRecorder afterNoEncoding = None
   \<and> fst (dispatch 1000 (RecordClick []) afterNoEncoding) = Some TypeError
   \<and> isRecording (snd (dispatch 1000 (RecordClick []) afterNoEncoding)) = False"
  using failed_open_leaves_partial_state
  by (simp add: example_defs handler_defs)

section \<open>Requests outside their state\<close>







section \<open>Reset\<close>

text \<open>
  Claim C9. A reset request taken in Stopped, after any run of events from the
  initial state, does not throw and leaves the chunk buffer empty, the paused
  total 0, the time display 00:00, the ready status line, the record button
  enabled, the pause, stop, save and reset buttons disabled and the canvas
  cleared: the configuration of the initial state. The session is Idle again.
\<close>

theorem reset_restores_initial_configuration:
  assumes "sessionState (run init evs) = Stopped"
  shows "fst (dispatch now ResetClick (run init evs)) = None
    \<and> configuration (snd (dispatch now ResetClick (run init evs))) =
        ([], Num 0, ''00:00'', ''Ready to record'', False, True, True, True, True, Cleared)
    \<and> configuration (snd (dispatch now ResetClick (run init evs))) = configuration init
    \<and> sessionState (snd (dispatch now ResetClick (run init evs))) = Idle"
proof -
  define r where "r = run init evs"
  have cr: "consistent r"
    unfolding r_def by (rule reachable_consistent)
  from assms have nr: "\<not> isRecording r" and en: "\<not> resetBtn_disabled r"
    by (auto simp: r_def sessionState_def split: if_splits)
  with cr have "\<not> recordBtn_disabled r" "pauseBtn_disabled r" "stopBtn_disabled r"
    by (auto simp: consistent_def)
  with nr en show ?thesis
    unfolding r_def[symmetric]
    by (simp add: resetApp_def configuration_def sessionState_def init_def)
qed

theorem reset_restores_initial_configuration_witness:
  "sessionState stoppedSession = Stopped
   \<and> configuration (snd (dispatch 7000 ResetClick stoppedSession)) = configuration init"
proof -
  have s: "sessionState stoppedSession = Stopped"
    by (simp add: sessionState_def example_defs handler_defs)
  note t = reset_restores_initial_configuration[of
      "firstRecord @ [(5000, StopClick), (5001, DataAvailable 7), (5001, RecorderStopped)]"
      7000, folded stoppedSession_def]
  from s t[OF s] show ?thesis by blast
qed

section \<open>One negotiation per page\<close>

text \<open>
  Claim C8. The encoding is to be negotiated at most once in the life of the
  page. The handler tests \<^verbatim>\<open>audioContext\<close> before it calls \<^verbatim>\<open>setupAudio\<close>, and
  \<^verbatim>\<open>setupAudio\<close> assigns it only after \<^verbatim>\<open>getUserMedia\<close> has settled; the record
  button is disabled later still. Two record clicks while the permission prompt
  is open therefore both get past the test: after the first is granted the
  choice is made and the session is Recording, and the second, once granted,
  negotiates again, builds a second recorder and sets a second interval, so that
  the first interval is never cleared.
\<close>

theorem double_click_negotiates_twice:
  "negotiations (run init (take 3 doubleClick)) = 1
   \<and> sessionState (run init (take 3 doubleClick)) = Recording
   \<and> selectedMimeType (run init (take 3 doubleClick)) = Some ''audio/webm''
   \<and> pendingSetup (run init (take 3 doubleClick)) = 1
   \<and> negotiations (run init doubleClick) = 2
   \<and> sessionState (run init doubleClick) = Recording
   \<and> 1 \<in> activeIntervals (run init doubleClick)
   \<and> 2 \<in> activeIntervals (run init doubleClick)
   \<and> timerInterval (run init doubleClick) = Some 2"
  by (simp add: sessionState_def example_defs handler_defs)

theorem double_click_negotiates_twice_witness:
  "negotiations (run init doubleClick) = 2
   \<and> negotiations (run init doubleClick) \<noteq> 1"
  using double_click_negotiates_twice by simp

section \<open>Auto-stop\<close>




section \<open>Pause and resume\<close>

text \<open>
  Claim C4, as stated, fails in one part: resume does not clear the pause-start
  instant. After a pause and a resume at 5000 the variable still holds 5000.
\<close>

theorem resume_keeps_pause_start_counterexample:
  "sessionState resumedSession = Recording
   \<and> pauseStartTime resumedSession = Num 5000
   \<and> pauseStartTime resumedSession \<noteq> Undefined"
  by (simp add: sessionState_def example_defs handler_defs)

text \<open>
  Claim C4, amended. In a recording session a pause request at \<open>t\<close> records \<open>t\<close> as
  the pause-start instant and leaves the paused total alone; the following
  resume at \<open>t'\<close> adds \<open>t' - t\<close> to the paused total and leaves the pause-start
  instant as it is. A pause and a resume at the same instant change neither the
  paused total nor the reading of the timer at any instant.
\<close>

theorem pause_resume_accounting:
  assumes "sessionState (run init evs) = Recording"
  shows "sessionState (step (t, PauseClick m) (run init evs)) = Paused
    \<and> pauseStartTime (step (t, PauseClick m) (run init evs)) = Num t
    \<and> elapsedPausedTime (step (t, PauseClick m) (run init evs)) = elapsedPausedTime (run init evs)
    \<and> sessionState (run (run init evs) [(t, PauseClick m), (t', PauseClick m')]) = Recording
    \<and> isNum (elapsedPausedTime (run init evs))
    \<and> elapsedPausedTime (run (run init evs) [(t, PauseClick m), (t', PauseClick m')])
        = js_add (elapsedPausedTime (run init evs)) (Num (t' - t))
    \<and> pauseStartTime (run (run init evs) [(t, PauseClick m), (t', PauseClick m')]) = Num t
    \<and> elapsedPausedTime (run (run init evs) [(t, PauseClick m), (t, PauseClick m')])
        = elapsedPausedTime (run init evs)
    \<and> netElapsed now (run (run init evs) [(t, PauseClick m), (t, PauseClick m')])
        = netElapsed now (run init evs)"
proof -
  define r where "r = run init evs"
  have cr: "consistent r"
    unfolding r_def by (rule reachable_consistent)
  from assms have rec: "isRecording r" "\<not> isPaused r"
    by (auto simp: r_def sessionState_def split: if_splits)
  from cr rec obtain c where mr: "mediaRecorder r = Some RecorderRecording"
    and c: "elapsedPausedTime r = Num c" and pb: "\<not> pauseBtn_disabled r"
    by (auto simp: consistent_def isNum_iff)
  show ?thesis
    unfolding r_def[symmetric]
    using rec mr c pb
    by (simp add: step_def pauseClick_def drawVisualizer_def sessionState_def netElapsed_def
        Let_def split: option.splits)
qed

theorem pause_resume_accounting_witness:
  "sessionState recordingSession = Recording
   \<and> elapsedPausedTime recordingSession = Num 0
   \<and> elapsedPausedTime resumedSession = Num 0
   \<and> netElapsed 9000 resumedSession = netElapsed 9000 recordingSession
   \<and> pauseStartTime resumedSession = Num 5000"
proof -
  have r: "sessionState recordingSession = Recording"
    "elapsedPausedTime recordingSession = Num 0"
    by (simp_all add: sessionState_def example_defs handler_defs)
  have e: "resumedSession = run recordingSession [(5000, PauseClick []), (5000, PauseClick [4])]"
    by (simp add: resumedSession_def recordingSession_def run_append)
  note t = pause_resume_accounting[where evs=firstRecord
      and t=5000 and m="[]" and t'=5000 and m'="[4]" and now=9000,
      folded recordingSession_def, OF r(1), folded e]
  from r t show ?thesis by simp
qed

section \<open>The elapsed time\<close>

text \<open>
  Claim C5, as stated, fails in two places. \<^verbatim>\<open>Date.now()\<close> is the wall clock:
  when it reads 5000 in a session started at 10000 the reading is negative, and
  the tick displays it. And after the two clicks of \<open>doubleClick\<close> the second
  grant restarts the accounting of a session that is Recording, so the reading
  drops from 2000 at 4000 to 1000 at 6000.
\<close>

theorem net_elapsed_counterexample:
  "sessionState startedAtTen = Recording
   \<and> netElapsed 5000 startedAtTen = Num (- 5000)
   \<and> timeDisplay (snd (dispatch 5000 (TimerTick 1) startedAtTen)) = ''-1:-5''
   \<and> sessionState (run init (take 3 doubleClick)) = Recording
   \<and> netElapsed 4000 (run init (take 3 doubleClick)) = Num 2000
   \<and> run init doubleClick
       = run (run init (take 3 doubleClick)) [(5000, GetUserMediaSettled envOk [2])]
   \<and> sessionState (run init doubleClick) = Recording
   \<and> netElapsed 6000 (run init doubleClick) = Num 1000"
  by (simp add: sessionState_def netElapsed_def MAX_RECORDING_TIME_MS_def
      toString_def padStart2_def js_rem_def digit_char_def show_nat.simps
      example_defs handler_defs)

lemma timeInv_init: "timeInv t init"
  by (simp add: timeInv_def init_def)

lemma timeInv_mono: "timeInv t s \<Longrightarrow> t \<le> t' \<Longrightarrow> timeInv t' s"
  by (auto simp: timeInv_def split: if_splits)

lemma timeInv_pending:
  "timeInv t (s\<lparr>pendingSetup := a\<rparr>) = timeInv t s"
  "timeInv t (s\<lparr>pendingResume := b\<rparr>) = timeInv t s"
  "timeInv t (s\<lparr>pendingFrames := c\<rparr>) = timeInv t s"
  "timeInv t (s\<lparr>audioContext := d\<rparr>) = timeInv t s"
  by (simp_all add: timeInv_def)

lemma timeInv_stopRecording:
  "timeInv t s \<Longrightarrow> timeInv t (snd (stopRecording s))"
  by (auto simp: timeInv_def isNum_iff stopRecording_def split: if_splits sum.splits)

lemma timeInv_updateTimer:
  "timeInv t s \<Longrightarrow> timeInv t (snd (updateTimer now s))"
  by (auto simp: timeInv_def isNum_iff updateTimer_def stopRecording_def Let_def
      split: if_splits sum.splits)

lemma timeInv_resetApp:
  "consistent s \<Longrightarrow> timeInv t s \<Longrightarrow> timeInv t (snd (resetApp s))"
  by (auto simp: consistent_def timeInv_def isNum_iff resetApp_def stopRecording_def Let_def
      split: if_splits sum.splits)

lemma timeInv_drawVisualizer:
  "timeInv t s \<Longrightarrow> timeInv t (snd (drawVisualizer m s))"
  by (auto simp: timeInv_def isNum_iff drawVisualizer_def Let_def split: if_splits option.splits)

lemma timeInv_pauseClick:
  "consistent s \<Longrightarrow> timeInv t s \<Longrightarrow> t \<le> now \<Longrightarrow> timeInv now (snd (pauseClick now m s))"
  by (auto simp: consistent_def timeInv_def isNum_iff pauseClick_def drawVisualizer_def Let_def
      split: if_splits option.splits)

lemma timeInv_startRecording:
  assumes "timeInv now s"
  shows "timeInv now (snd (startRecording now m s))"
proof (cases "recorder_start (mediaRecorder s)")
  case (Inl err)
  with assms show ?thesis by (simp add: startRecording_def)
next
  case (Inr r)
  then show ?thesis
    by (auto simp: timeInv_def startRecording_def drawVisualizer_def Let_def
        split: option.splits)
qed

lemma timeInv_afterSetup:
  assumes "timeInv now s"
  shows "timeInv now (snd (afterSetup now e m s))"
proof (cases "fst (setupAudio e s)")
  case False
  have "timeInv now (snd (setupAudio e s))"
    using assms by (auto simp: timeInv_def setupAudio_def Let_def split: option.splits)
  with False show ?thesis
    by (simp add: afterSetup_def split_beta)
next
  case True
  have "timeInv now (snd (setupAudio e s))"
    using assms by (auto simp: timeInv_def setupAudio_def Let_def split: option.splits)
  from timeInv_startRecording[OF this] True show ?thesis
    by (simp add: afterSetup_def split_beta)
qed

lemma timeInv_step:
  assumes c: "consistent s" and ti: "timeInv t s" and le: "t \<le> fst te"
  shows "timeInv (fst te) (step te s)"
proof (cases te)
  case (Pair now ev)
  with le have ln: "t \<le> now" by simp
  from ti ln have tn: "timeInv now s" by (rule timeInv_mono)
  show ?thesis
  proof (cases ev)
    case (RecordClick m)
    show ?thesis
    proof (cases "audioContext s")
      case None
      with RecordClick Pair tn show ?thesis
        by (simp add: step_def recordClick_def timeInv_pending)
    next
      case (Some c)
      with RecordClick Pair tn show ?thesis
        by (cases c)
          (simp_all add: step_def recordClick_def timeInv_pending timeInv_startRecording)
    qed
  next
    case (GetUserMediaSettled e m)
    with Pair tn show ?thesis
      by (simp add: step_def timeInv_afterSetup timeInv_pending)
  next
    case (ContextResumed m)
    with Pair tn show ?thesis
      by (simp add: step_def afterResume_def timeInv_startRecording timeInv_pending)
  next
    case (PauseClick m)
    with Pair c ti ln tn show ?thesis by (simp add: step_def timeInv_pauseClick)
  next
    case StopClick
    with Pair tn show ?thesis by (simp add: step_def timeInv_stopRecording)
  next
    case SaveClick
    with Pair tn show ?thesis
      by (auto simp: step_def timeInv_def saveClick_def split: option.splits)
  next
    case ResetClick
    with Pair c tn show ?thesis by (simp add: step_def timeInv_resetApp)
  next
    case (TimerTick i)
    with Pair tn show ?thesis by (simp add: step_def timeInv_updateTimer)
  next
    case (AnimationFrame i m)
    with Pair tn show ?thesis
      by (simp add: step_def timeInv_drawVisualizer timeInv_pending)
  next
    case (DataAvailable d)
    with Pair tn show ?thesis
      by (auto simp: step_def timeInv_def ondataavailable_def)
  next
    case RecorderStopped
    with Pair tn show ?thesis
      by (auto simp: step_def timeInv_def onstop_def)
  qed
qed

lemma timeInv_run:
  "consistent s \<Longrightarrow> timeInv t s \<Longrightarrow> timed t evs \<Longrightarrow> timeInv (lastTime t evs) (run s evs)"
proof (induction evs arbitrary: s t)
  case Nil
  then show ?case by simp
next
  case (Cons te evs)
  from Cons.prems have "consistent (step te s)" "timeInv (fst te) (step te s)" "timed (fst te) evs"
    by (auto simp: consistent_step timeInv_step)
  from Cons.IH[OF this] show ?case by simp
qed

lemma reachable_timeInv:
  "timed t0 evs \<Longrightarrow> timeInv (lastTime t0 evs) (run init evs)"
  by (rule timeInv_run[OF consistent_init timeInv_init])

lemma recorded_step:
  assumes c: "consistent s" and ti: "timeInv t s" and ir: "isRecording s"
    and le: "t \<le> fst te" and ns: "\<not> completesSetup (snd te)"
    and ir': "isRecording (step te s)"
  shows "isNum (recordedTime t s) \<and> isNum (recordedTime (fst te) (step te s))
    \<and> numOf (recordedTime t s) \<le> numOf (recordedTime (fst te) (step te s))"
proof (cases te)
  case (Pair now ev)
  with le have ln: "t \<le> now" by simp
  from c ir obtain st el where st: "startTime s = Num st" and el: "elapsedPausedTime s = Num el"
    and mr: "mediaRecorder s = Some (if isPaused s then RecorderPaused else RecorderRecording)"
    and rb: "recordBtn_disabled s" and sb: "\<not> stopBtn_disabled s"
    and pb: "\<not> pauseBtn_disabled s"
    by (auto simp: consistent_def isNum_iff)
  have ps: "\<exists>p. pauseStartTime s = Num p \<and> p \<le> t" if "isPaused s"
    using ti that st by (auto simp: timeInv_def isNum_iff)
  show ?thesis
  proof (cases ev)
    case (RecordClick m)
    with Pair ir st el ln ps rb show ?thesis
      by (auto simp: step_def recordedTime_def)
  next
    case (GetUserMediaSettled e m)
    with Pair ns show ?thesis by simp
  next
    case (ContextResumed m)
    with Pair ir st el ln ps mr show ?thesis
      by (auto simp: step_def afterResume_def startRecording_def recordedTime_def)
  next
    case (PauseClick m)
    with Pair ir st el ln ps mr pb show ?thesis
      by (cases "isPaused s")
        (auto simp: step_def pauseClick_def drawVisualizer_def recordedTime_def Let_def
          split: option.splits)
  next
    case StopClick
    with Pair ir ir' mr sb show ?thesis
      by (auto simp: step_def stopRecording_def split: if_splits)
  next
    case SaveClick
    with Pair ir st el ln ps show ?thesis
      by (auto simp: step_def saveClick_def recordedTime_def split: option.splits)
  next
    case ResetClick
    with Pair ir ir' mr st el ln ps show ?thesis
      by (auto simp: step_def resetApp_def stopRecording_def recordedTime_def split: if_splits)
  next
    case (TimerTick i)
    with Pair ir ir' st el ln ps mr show ?thesis
      by (auto simp: step_def updateTimer_def stopRecording_def recordedTime_def Let_def
          split: if_splits)
  next
    case (AnimationFrame i m)
    with Pair ir st el ln ps show ?thesis
      by (auto simp: step_def drawVisualizer_def recordedTime_def Let_def split: option.splits)
  next
    case (DataAvailable d)
    with Pair ir st el ln ps show ?thesis
      by (auto simp: step_def ondataavailable_def recordedTime_def)
  next
    case RecorderStopped
    with Pair ir st el ln ps show ?thesis
      by (auto simp: step_def onstop_def recordedTime_def)
  qed
qed

lemma recorded_run:
  "consistent s \<Longrightarrow> timeInv t s \<Longrightarrow> timed t evs \<Longrightarrow> sameSession s evs \<Longrightarrow>
     isNum (recordedTime t s) \<and> isNum (recordedTime (lastTime t evs) (run s evs))
     \<and> numOf (recordedTime t s) \<le> numOf (recordedTime (lastTime t evs) (run s evs))"
proof (induction evs arbitrary: s t)
  case Nil
  then show ?case
    by (auto simp: consistent_def recordedTime_def timeInv_def isNum_iff)
next
  case (Cons te evs)
  from Cons.prems have ir: "isRecording s" and rt: "sameSession (step te s) evs"
    and ns: "\<not> completesSetup (snd te)"
    and le: "t \<le> fst te" and td: "timed (fst te) evs"
    by simp_all
  from rt have ir': "isRecording (step te s)" by (cases evs) simp_all
  from Cons.prems have c': "consistent (step te s)" and ti': "timeInv (fst te) (step te s)"
    by (auto simp: consistent_step timeInv_step)
  from recorded_step[OF Cons.prems(1,2) ir le ns ir'] Cons.IH[OF c' ti' td rt]
  show ?case by simp
qed

text \<open>
  Claim C5, amended. After any run of events from the initial state that leaves
  the session not Idle, the timer's reading at any instant \<open>now\<close> is
  \<open>now - start - cumulative paused\<close>, and a tick in Recording below the limit
  displays exactly that reading. If the readings of the clock never go back, over
  the run and up to \<open>now\<close>, the reading is not negative; and if the session is
  Recording and, over a further stretch of the same session with the clock still
  not going back, is Recording again, the reading at any instant after that
  stretch is not below the reading at \<open>now\<close>.
\<close>

theorem net_elapsed_invariant:
  assumes "sessionState (run init evs) \<noteq> Idle"
  shows "\<exists>st c. startTime (run init evs) = Num st \<and> elapsedPausedTime (run init evs) = Num c
      \<and> netElapsed now (run init evs) = Num (now - st - c)
      \<and> (sessionState (run init evs) = Recording \<and> now - st - c < MAX_RECORDING_TIME_MS \<longrightarrow>
           updateTimer now (run init evs) =
             (None, (run init evs)\<lparr>timeDisplay := formatElapsed (Num (now - st - c))\<rparr>))
      \<and> (timed t0 evs \<and> lastTime t0 evs \<le> now \<longrightarrow> 0 \<le> now - st - c)
      \<and> (timed t0 evs \<and> lastTime t0 evs \<le> now
           \<and> sessionState (run init evs) = Recording \<and> timed now later
           \<and> sameSession (run init evs) later
           \<and> sessionState (run (run init evs) later) = Recording
           \<and> lastTime now later \<le> now' \<longrightarrow>
           js_ge (netElapsed now' (run (run init evs) later)) (Num (now - st - c)))"
proof -
  define r where "r = run init evs"
  have cr: "consistent r"
    unfolding r_def by (rule reachable_consistent)
  from assms cr have "isNum (startTime r)" "isNum (elapsedPausedTime r)"
    by (auto simp: r_def[symmetric] sessionState_def consistent_def split: if_splits)
  then obtain st c where st: "startTime r = Num st" and c: "elapsedPausedTime r = Num c"
    by (auto simp: isNum_iff)
  have net: "netElapsed now r = Num (now - st - c)"
    using st c by (simp add: netElapsed_def)
  have tick: "updateTimer now r = (None, r\<lparr>timeDisplay := formatElapsed (Num (now - st - c))\<rparr>)"
    if rec: "sessionState r = Recording" and lt: "now - st - c < MAX_RECORDING_TIME_MS"
  proof -
    from rec have np: "\<not> isPaused r" by (auto simp: sessionState_def split: if_splits)
    have "\<not> js_ge (js_sub (js_sub (Num now) (startTime r)) (elapsedPausedTime r))
        (Num MAX_RECORDING_TIME_MS)"
      using st c lt by simp
    then show ?thesis
      using np st c unfolding updateTimer_def Let_def
      by (simp del: formatElapsed.simps)
  qed
  have tr: "timeInv now r" if "timed t0 evs" "lastTime t0 evs \<le> now"
  proof -
    have "timeInv (lastTime t0 evs) r"
      unfolding r_def using that(1) by (rule reachable_timeInv)
    from this that(2) show ?thesis by (rule timeInv_mono)
  qed
  have pos: "0 \<le> now - st - c" if "timed t0 evs" "lastTime t0 evs \<le> now"
    using tr[OF that] st c by (auto simp: timeInv_def isNum_iff split: if_splits)
  have mono: "js_ge (netElapsed now' (run r later)) (Num (now - st - c))"
    if t1: "timed t0 evs" and t2: "lastTime t0 evs \<le> now"
      and rec: "sessionState r = Recording" and td: "timed now later"
      and rt: "sameSession r later"
      and rec': "sessionState (run r later) = Recording" and le: "lastTime now later \<le> now'"
  proof -
    define r' where "r' = run r later"
    from rec have np: "\<not> isPaused r" by (auto simp: sessionState_def split: if_splits)
    from rec' have np': "\<not> isPaused r'" "isRecording r'"
      by (auto simp: r'_def sessionState_def split: if_splits)
    have cr': "consistent r'"
      unfolding r'_def using cr by (rule consistent_run)
    from cr' np' obtain st' c' where st': "startTime r' = Num st'"
      and c': "elapsedPausedTime r' = Num c'"
      by (auto simp: consistent_def isNum_iff)
    from recorded_run[OF cr tr[OF t1 t2] td rt] np np' st c st' c'
    have "now - st - c \<le> lastTime now later - st' - c'"
      by (simp add: recordedTime_def r'_def[symmetric])
    with le st' c' show ?thesis
      by (simp add: netElapsed_def r'_def[symmetric])
  qed
  from st c net tick pos mono show ?thesis
    unfolding r_def[symmetric] by blast
qed

theorem net_elapsed_invariant_witness:
  "timed 0 twoPauses \<and> lastTime 0 twoPauses \<le> 12000
   \<and> sessionState (run init twoPauses) = Recording
   \<and> timed 12000 thirdPause \<and> sameSession (run init twoPauses) thirdPause
   \<and> sessionState (run (run init twoPauses) thirdPause) = Recording
   \<and> lastTime 12000 thirdPause \<le> 15000
   \<and> netElapsed 12000 (run init twoPauses) = Num 7000
   \<and> timeDisplay (snd (updateTimer 12000 (run init twoPauses))) = ''00:07''
   \<and> js_ge (netElapsed 15000 (run (run init twoPauses) thirdPause)) (Num 7000)"
proof -
  have h: "timed 0 twoPauses" "lastTime 0 twoPauses \<le> 12000"
    "timed 12000 thirdPause" "lastTime 12000 thirdPause \<le> 15000"
    by (simp_all add: twoPauses_def thirdPause_def firstRecord_def)
  have s: "sessionState (run init twoPauses) = Recording"
    "startTime (run init twoPauses) = Num 0"
    "elapsedPausedTime (run init twoPauses) = Num 5000"
    by (simp_all add: sessionState_def example_defs handler_defs)
  have rt: "sameSession (run init twoPauses) thirdPause"
    by (simp add: example_defs handler_defs)
  have s': "sessionState (run (run init twoPauses) thirdPause) = Recording"
    by (simp add: sessionState_def example_defs handler_defs)
  have f: "formatElapsed (Num 7000) = ''00:07''"
    by (simp add: toString_def padStart2_def js_rem_def digit_char_def show_nat.simps)
  have n: "x \<noteq> Idle" if "x = Recording" for x using that by simp
  from net_elapsed_invariant[where evs=twoPauses and ?t0.0=0 and now=12000
      and later=thirdPause and now'=15000, OF n[OF s(1)]] h s rt s' f
  show ?thesis
    by (auto simp: MAX_RECORDING_TIME_MS_def)
qed

end
